theory Spec2Isabelle
  imports Main "HOL-Library.Word"
begin

section \<open>The SecretBinding controller: data model\<close>

text \<open>
  The Go source is \<^verbatim>\<open>package secretbinding\<close>: the struct \<^verbatim>\<open>Controller\<close>, its
  constructor \<^verbatim>\<open>NewSecretBindingController\<close> and the method \<^verbatim>\<open>Run\<close>.
  Interface and pointer values that Go can leave \<^verbatim>\<open>nil\<close> are options; the objects the
  controller shares with other goroutines (informers, queues) are named by references.
\<close>

datatype kind = SecretBindingKind | ShootKind

datatype reconciler = SecretBindingReconciler | SecretBindingProviderReconciler

text \<open>The four methods of the controller that the constructor hands to the informers.\<close>

datatype handler = SecretBindingAdd | SecretBindingUpdate | SecretBindingDelete | ShootAdd

text \<open>\<^verbatim>\<open>cache.ResourceEventHandlerFuncs\<close>: a field left out of the literal is \<^verbatim>\<open>nil\<close>.\<close>

record ResourceEventHandlerFuncs =
  AddFunc :: "handler option"
  UpdateFunc :: "handler option"
  DeleteFunc :: "handler option"

type_synonym informer_ref = nat

text \<open>The informers live in the client's cache; the store maps each to its registered handlers.\<close>

type_synonym informers = "informer_ref \<Rightarrow> ResourceEventHandlerFuncs list"

text \<open>\<^verbatim>\<open>informer.HasSynced\<close> as a method value: it remembers its informer.\<close>

datatype InformerSynced = HasSynced informer_ref

datatype error = ClientError string | Errorf string error

text \<open>
  A work queue as far as \<^verbatim>\<open>Run\<close> changes it: its name and whether \<^verbatim>\<open>ShutDown\<close> was
  called. Its length is read from the environment (workers and event handlers change it).
\<close>

record queue =
  qname :: string
  shuttingDown :: bool

text \<open>\<^verbatim>\<open>make(chan int)\<close>: a channel with its buffer capacity.\<close>

datatype chan = Chan nat

text \<open>
  Go's \<^verbatim>\<open>int\<close> on the 64-bit platforms the controller is built for: addition wraps
  around.
\<close>

type_synonym goint = "64 word"

record Controller =
  reconciler :: "reconciler option"
  secretBindingProviderReconciler :: "reconciler option"
  hasSyncedFuncs :: "InformerSynced list"
  secretBindingQueue :: "queue option"
  shootQueue :: "queue option"
  workerCh :: "chan option"
  numberOfRunningWorkers :: goint

text \<open>
  The garden client as the constructor uses it: \<^verbatim>\<open>Cache().GetInformer(ctx, obj)\<close>, which
  fails or yields the informer of the object's kind.
\<close>

record gardenClient =
  GetInformer :: "kind \<Rightarrow> error + informer_ref"

definition NewNamedRateLimitingQueue :: "string \<Rightarrow> queue" where
  "NewNamedRateLimitingQueue n = \<lparr>qname = n, shuttingDown = False\<rparr>"

definition AddEventHandler ::
    "informer_ref \<Rightarrow> ResourceEventHandlerFuncs \<Rightarrow> informers \<Rightarrow> informers" where
  "AddEventHandler i h st = st(i := st i @ [h])"

section \<open>NewSecretBindingController\<close>

text \<open>
  \<open>getClient\<close> is the result of \<^verbatim>\<open>clientMap.GetClient(ctx, keys.ForGarden())\<close>. The
  function returns the Go pair \<^verbatim>\<open>(*Controller, error)\<close> as a sum (\<open>Inl\<close>: nil controller
  and the error; \<open>Inr\<close>: the controller and a nil error) together with the informer store.
\<close>

definition NewSecretBindingController ::
    "(error + gardenClient) \<Rightarrow> informers \<Rightarrow> (error + Controller) \<times> informers" where
  "NewSecretBindingController getClient st =
     (case getClient of
        Inl err \<Rightarrow> (Inl err, st)
      | Inr gc \<Rightarrow>
         (case GetInformer gc SecretBindingKind of
            Inl err \<Rightarrow> (Inl (Errorf ''failed to get SecretBinding Informer: %w'' err), st)
          | Inr secretBindingInformer \<Rightarrow>
             (case GetInformer gc ShootKind of
                Inl err \<Rightarrow> (Inl (Errorf ''failed to get Shoot Informer: %w'' err), st)
              | Inr shootInformer \<Rightarrow>
                 (let secretBindingController =
                        \<lparr>reconciler = Some SecretBindingReconciler,
                         secretBindingProviderReconciler = Some SecretBindingProviderReconciler,
                         hasSyncedFuncs = [],
                         secretBindingQueue = Some (NewNamedRateLimitingQueue ''SecretBinding''),
                         shootQueue = Some (NewNamedRateLimitingQueue ''Shoot''),
                         workerCh = Some (Chan 0),
                         numberOfRunningWorkers = 0\<rparr>;
                      st1 = AddEventHandler secretBindingInformer
                              \<lparr>AddFunc = Some SecretBindingAdd,
                               UpdateFunc = Some SecretBindingUpdate,
                               DeleteFunc = Some SecretBindingDelete\<rparr> st;
                      st2 = AddEventHandler shootInformer
                              \<lparr>AddFunc = Some ShootAdd, UpdateFunc = None, DeleteFunc = None\<rparr> st1
                  in (Inr (secretBindingController
                            \<lparr>hasSyncedFuncs := hasSyncedFuncs secretBindingController
                                 @ [HasSynced secretBindingInformer, HasSynced shootInformer]\<rparr>),
                      st2)))))"

text \<open>Obtaining the client or one of the two informers fails.\<close>

definition obtainFails :: "(error + gardenClient) \<Rightarrow> bool" where
  "obtainFails getClient =
     (case getClient of
        Inl _ \<Rightarrow> True
      | Inr gc \<Rightarrow> isl (GetInformer gc SecretBindingKind) \<or> isl (GetInformer gc ShootKind))"

section \<open>Run\<close>

text \<open>
  \<^verbatim>\<open>Run\<close> shares the controller with the goroutine it starts and with the workers, and it
  blocks three times: on \<^verbatim>\<open><-ctx.Done()\<close>, in the polling loop and in
  \<^verbatim>\<open>waitGroup.Wait()\<close>. What the rest of the process does meanwhile is the environment:
  a list of instants, one for each time \<^verbatim>\<open>Run\<close> wakes up (the loop sleeps five seconds
  between two of them). An instant says whether the context is cancelled, what
  \<^verbatim>\<open>Len()\<close> of either queue is, which values were delivered over \<^verbatim>\<open>workerCh\<close>
  since the instant before, and whether the wait group's counter is zero. A list that ends
  while \<^verbatim>\<open>Run\<close> is still blocked leaves it blocked: the outcome says where.
\<close>

record world =
  ctxDone :: bool
  sbLen :: nat
  shootLen :: nat
  signals :: "goint list"
  wgZero :: bool

record env =
  cacheSync :: bool
  ticks :: "world list"

datatype goroutine = MainG | CounterG

text \<open>
  What a goroutine does, as far as the controller, its queues and its channel see it.
  \<^verbatim>\<open>CreateWorker\<close> is a call of \<^verbatim>\<open>controllerutils.CreateWorker\<close> with the queue, the
  name, the reconciler and the channel it is given (and the context and the wait group).
\<close>

datatype action =
    LogError
  | GoCounter
  | LogInfo
  | CreateWorker "queue option" string "reconciler option" "chan option"
  | RecvCtxDone
  | ShutDown string
  | Len string nat
  | RecvWorkerCh goint
  | ReadCounter goint
  | WriteCounter goint
  | Sleep
  | Break
  | Wait

type_synonym event = "goroutine \<times> action"

record run_state =
  ctrl :: Controller
  trace :: "event list"

datatype outcome = Returned | BlockedOnCtx | Polling | BlockedOnWait | Panicked

text \<open>\<open>lastPoll\<close> is the instant at which the polling loop was left, if it was.\<close>

record result =
  outcome :: outcome
  final :: run_state
  lastPoll :: "world option"

definition emit :: "event \<Rightarrow> run_state \<Rightarrow> run_state" where
  "emit ev s = s\<lparr>trace := trace s @ [ev]\<rparr>"

text \<open>
  The goroutine of lines 108 to 113: \<^verbatim>\<open>for res := range c.workerCh\<close> adds every value it
  receives to \<^verbatim>\<open>c.numberOfRunningWorkers\<close> and logs the new value; the addition is
  that of Go's \<^verbatim>\<open>int\<close> and wraps around. Receiving from a nil channel blocks forever.
\<close>

fun countWorkers :: "goint list \<Rightarrow> run_state \<Rightarrow> run_state" where
  "countWorkers [] s = s"
| "countWorkers (res # rs) s =
     (let n = numberOfRunningWorkers (ctrl s)
      in countWorkers rs
           (s\<lparr>ctrl := (ctrl s)\<lparr>numberOfRunningWorkers := n + res\<rparr>,
              trace := trace s @ [(CounterG, RecvWorkerCh res), (CounterG, ReadCounter n),
                                  (CounterG, WriteCounter (n + res)),
                                  (CounterG, ReadCounter (n + res))]\<rparr>))"

definition counterGoroutine :: "world \<Rightarrow> run_state \<Rightarrow> run_state" where
  "counterGoroutine w s =
     (if workerCh (ctrl s) = None then s else countWorkers (signals w) s)"

text \<open>\<^verbatim>\<open>for i := 0; i < k; i++ { controllerutils.CreateWorker(...) }\<close>, with \<open>k\<close> iterations left.\<close>

fun createWorkers :: "nat \<Rightarrow> action \<Rightarrow> run_state \<Rightarrow> run_state" where
  "createWorkers 0 a s = s"
| "createWorkers (Suc k) a s = createWorkers k a (emit (MainG, a) s)"

text \<open>
  \<^verbatim>\<open>waitGroup.Wait()\<close>. The wait group is local to \<^verbatim>\<open>Run\<close> and only
  \<^verbatim>\<open>CreateWorker\<close> is given it: \<open>none\<close> says that no worker was created, and then its
  counter is zero.
\<close>

fun waitGroupWait :: "bool \<Rightarrow> world \<Rightarrow> world list \<Rightarrow> run_state \<Rightarrow> outcome \<times> run_state" where
  "waitGroupWait none w [] s =
     (if none \<or> wgZero w then (Returned, s) else (BlockedOnWait, s))"
| "waitGroupWait none w (w' # ws) s =
     (if none \<or> wgZero w then (Returned, s)
      else waitGroupWait none w' ws (counterGoroutine w' s))"

text \<open>
  The loop of lines 131 to 138. \<open>queueLengths\<close> is the local variable of line 129; the
  loop reads \<^verbatim>\<open>c.numberOfRunningWorkers\<close> in its condition (only when \<open>queueLengths\<close> is
  zero: \<^verbatim>\<open>&&\<close> is short-circuit) and in its log message, then sleeps.
\<close>

fun shutdownLoop :: "nat \<Rightarrow> bool \<Rightarrow> world \<Rightarrow> world list \<Rightarrow> run_state \<Rightarrow> result" where
  "shutdownLoop queueLengths none w [] s =
     (let n = numberOfRunningWorkers (ctrl s);
          s1 = (if queueLengths = 0 then emit (MainG, ReadCounter n) s else s)
      in if queueLengths = 0 \<and> n = 0 then
           (case waitGroupWait none w [] (emit (MainG, Wait) (emit (MainG, Break) s1)) of
              (oc, s2) \<Rightarrow> \<lparr>outcome = oc, final = s2, lastPoll = Some w\<rparr>)
         else \<lparr>outcome = Polling,
               final = emit (MainG, Sleep) (emit (MainG, ReadCounter n) s1),
               lastPoll = None\<rparr>)"
| "shutdownLoop queueLengths none w (w' # ws) s =
     (let n = numberOfRunningWorkers (ctrl s);
          s1 = (if queueLengths = 0 then emit (MainG, ReadCounter n) s else s)
      in if queueLengths = 0 \<and> n = 0 then
           (case waitGroupWait none w (w' # ws) (emit (MainG, Wait) (emit (MainG, Break) s1)) of
              (oc, s2) \<Rightarrow> \<lparr>outcome = oc, final = s2, lastPoll = Some w\<rparr>)
         else shutdownLoop queueLengths none w' ws
                (counterGoroutine w' (emit (MainG, Sleep) (emit (MainG, ReadCounter n) s1))))"

text \<open>
  Lines 126 to 129: \<^verbatim>\<open>ShutDown\<close> on both queues (a method call on a nil interface
  panics), then the one reading of the two lengths.
\<close>

definition shutDown :: "bool \<Rightarrow> world \<Rightarrow> world list \<Rightarrow> run_state \<Rightarrow> result" where
  "shutDown none w ws s =
     (case secretBindingQueue (ctrl s) of
        None \<Rightarrow> \<lparr>outcome = Panicked, final = s, lastPoll = None\<rparr>
      | Some q1 \<Rightarrow>
         (let s1 = emit (MainG, ShutDown (qname q1))
                     (s\<lparr>ctrl := (ctrl s)\<lparr>secretBindingQueue := Some (q1\<lparr>shuttingDown := True\<rparr>)\<rparr>\<rparr>)
          in case shootQueue (ctrl s1) of
               None \<Rightarrow> \<lparr>outcome = Panicked, final = s1, lastPoll = None\<rparr>
             | Some q2 \<Rightarrow>
                (let s2 = emit (MainG, ShutDown (qname q2))
                            (s1\<lparr>ctrl := (ctrl s1)\<lparr>shootQueue := Some (q2\<lparr>shuttingDown := True\<rparr>)\<rparr>\<rparr>);
                     queueLengths = sbLen w + shootLen w;
                     s3 = emit (MainG, Len (qname q2) (shootLen w))
                            (emit (MainG, Len (qname q1) (sbLen w)) s2)
                 in shutdownLoop queueLengths none w ws s3)))"

text \<open>\<^verbatim>\<open><-ctx.Done()\<close>: blocked until an instant at which the context is cancelled.\<close>

fun awaitCtxDone :: "bool \<Rightarrow> world list \<Rightarrow> run_state \<Rightarrow> result" where
  "awaitCtxDone none [] s = \<lparr>outcome = BlockedOnCtx, final = s, lastPoll = None\<rparr>"
| "awaitCtxDone none (w # ws) s =
     (let s' = counterGoroutine w s
      in if ctxDone w then shutDown none w ws (emit (MainG, RecvCtxDone) s')
         else awaitCtxDone none ws s')"

text \<open>
  \<open>cacheSync e\<close> is what \<^verbatim>\<open>cache.WaitForCacheSync(ctx.Done(), c.hasSyncedFuncs...)\<close>
  returns. A \<^verbatim>\<open>for\<close> loop from 0 while \<^verbatim>\<open>i < k\<close> runs \<open>nat k\<close> times (not at all for
  a negative \<open>k\<close>).
\<close>

definition Run :: "env \<Rightarrow> Controller \<Rightarrow> int \<Rightarrow> int \<Rightarrow> result" where
  "Run e c secretBindingWorkers secretBindingProviderWorkers =
     (let s0 = \<lparr>ctrl = c, trace = []\<rparr>
      in if \<not> cacheSync e then
           \<lparr>outcome = Returned, final = emit (MainG, LogError) s0, lastPoll = None\<rparr>
         else
           (let s1 = emit (MainG, LogInfo) (emit (MainG, GoCounter) s0);
                s2 = createWorkers (nat secretBindingWorkers)
                       (CreateWorker (secretBindingQueue c) ''SecretBinding'' (reconciler c) (workerCh c)) s1;
                s3 = createWorkers (nat secretBindingProviderWorkers)
                       (CreateWorker (shootQueue c) ''SecretBinding Provider''
                          (secretBindingProviderReconciler c) (workerCh c)) s2
            in awaitCtxDone (nat secretBindingWorkers + nat secretBindingProviderWorkers = 0)
                 (ticks e) s3))"

subsection \<open>Observations on a run\<close>

fun isCreateWorker :: "event \<Rightarrow> bool" where
  "isCreateWorker (g, CreateWorker q n r ch) = True"
| "isCreateWorker (g, a) = False"

definition createWorkerCalls :: "event list \<Rightarrow> event list" where
  "createWorkerCalls tr = filter isCreateWorker tr"

text \<open>The values of the counter that \<^verbatim>\<open>Run\<close> itself read, in order.\<close>

fun mainReads :: "event list \<Rightarrow> goint list" where
  "mainReads [] = []"
| "mainReads ((MainG, ReadCounter n) # tr) = n # mainReads tr"
| "mainReads (ev # tr) = mainReads tr"

text \<open>The values received from \<^verbatim>\<open>workerCh\<close>, in order.\<close>

fun received :: "event list \<Rightarrow> goint list" where
  "received [] = []"
| "received ((g, RecvWorkerCh v) # tr) = v # received tr"
| "received (ev # tr) = received tr"

fun writesCounter :: "action \<Rightarrow> bool" where
  "writesCounter (WriteCounter v) = True"
| "writesCounter a = False"

fun readsCounter :: "action \<Rightarrow> bool" where
  "readsCounter (ReadCounter v) = True"
| "readsCounter a = False"

text \<open>
  Modelled from the spec: the loop as section 4.5 words it ("poll, at a fixed interval,
  the sum of all queue lengths and the running-worker counter"), where both lengths are
  read again at every instant. It is here only to be compared with \<open>shutdownLoop\<close>,
  which is the loop of the source.
\<close>

fun shutdownLoop_spec :: "bool \<Rightarrow> world \<Rightarrow> world list \<Rightarrow> run_state \<Rightarrow> result" where
  "shutdownLoop_spec none w [] s =
     (let n = numberOfRunningWorkers (ctrl s)
      in if sbLen w + shootLen w = 0 \<and> n = 0 then
           (case waitGroupWait none w [] (emit (MainG, Wait) (emit (MainG, Break) s)) of
              (oc, s2) \<Rightarrow> \<lparr>outcome = oc, final = s2, lastPoll = Some w\<rparr>)
         else \<lparr>outcome = Polling, final = emit (MainG, Sleep) s, lastPoll = None\<rparr>)"
| "shutdownLoop_spec none w (w' # ws) s =
     (let n = numberOfRunningWorkers (ctrl s)
      in if sbLen w + shootLen w = 0 \<and> n = 0 then
           (case waitGroupWait none w (w' # ws) (emit (MainG, Wait) (emit (MainG, Break) s)) of
              (oc, s2) \<Rightarrow> \<lparr>outcome = oc, final = s2, lastPoll = Some w\<rparr>)
         else shutdownLoop_spec none w' ws (counterGoroutine w' (emit (MainG, Sleep) s)))"

section \<open>The work queue and the worker pool\<close>

text \<open>
  The queue is \<^verbatim>\<open>k8s.io/client-go/util/workqueue\<close> and the worker is
  \<^verbatim>\<open>controllerutils.CreateWorker\<close>; the source of neither is at hand. Keys are strings
  (\<^verbatim>\<open>namespace/name\<close>).
\<close>

record workqueue =
  ready :: "string list"
  inflight :: "string list"
  readded :: "string list"
  shutDownCalled :: bool

definition emptyQueue :: workqueue where
  "emptyQueue = \<lparr>ready = [], inflight = [], readded = [], shutDownCalled = False\<rparr>"

text \<open>
  Modelled from the spec: the queue's \<^verbatim>\<open>Add\<close> (section 4.2), "insert for immediate
  processing; if key already pending, no-op (dedup)"; after \<^verbatim>\<open>ShutDown\<close> new keys are
  rejected. A key added while it is in flight is remembered for \<^verbatim>\<open>Done\<close>.
\<close>

definition wqAdd :: "string \<Rightarrow> workqueue \<Rightarrow> workqueue" where
  "wqAdd k q =
     (if shutDownCalled q then q
      else if k \<in> set (ready q) then q
      else if k \<in> set (inflight q) then
        (if k \<in> set (readded q) then q else q\<lparr>readded := readded q @ [k]\<rparr>)
      else q\<lparr>ready := ready q @ [k]\<rparr>)"











section \<open>The event handlers\<close>

datatype object = SecretBindingObj string string | ShootObj string string string

definition objKey :: "string \<Rightarrow> string \<Rightarrow> string" where
  "objKey ns n = ns @ ''/'' @ n"

text \<open>
  Modelled from the spec: the methods \<^verbatim>\<open>secretBindingAdd\<close>, \<^verbatim>\<open>secretBindingUpdate\<close>,
  \<^verbatim>\<open>secretBindingDelete\<close> and \<^verbatim>\<open>shootAdd\<close> of the controller, which are absent from the
  source (section 4.1): "On add/update of the primary kind: enqueue its key immediately",
  "On delete of the primary kind: enqueue the key immediately", "On add of a secondary kind
  carrying a reference to a primary kind: resolve the reference and enqueue the primary's
  key into the primary's queue". The queue is the primary's; a SecretBinding is named by
  namespace and name, a Shoot by namespace, name and the name of its SecretBinding.
\<close>

fun handleEvent :: "handler \<Rightarrow> object \<Rightarrow> workqueue \<Rightarrow> workqueue" where
  "handleEvent ShootAdd (ShootObj ns n ref) q = wqAdd (objKey ns ref) q"
| "handleEvent ShootAdd (SecretBindingObj ns n) q = q"
| "handleEvent h (SecretBindingObj ns n) q = wqAdd (objKey ns n) q"
| "handleEvent h (ShootObj ns n ref) q = q"

section \<open>Names used in the proofs and examples\<close>

text \<open>Leaving the polling loop: the last reading of the counter, the break, the wait.\<close>

definition leave :: "run_state \<Rightarrow> run_state" where
  "leave s = emit (MainG, Wait) (emit (MainG, Break) (emit (MainG, ReadCounter 0) s))"

text \<open>One more round of the polling loop: the readings, the log message, the sleep.\<close>

definition again :: "nat \<Rightarrow> run_state \<Rightarrow> run_state" where
  "again q s = emit (MainG, Sleep) (emit (MainG, ReadCounter (numberOfRunningWorkers (ctrl s)))
      (if q = 0 then emit (MainG, ReadCounter (numberOfRunningWorkers (ctrl s))) s else s))"

text \<open>The state of \<^verbatim>\<open>Run\<close> when it starts to wait for the cancellation.\<close>

definition started :: "Controller \<Rightarrow> int \<Rightarrow> int \<Rightarrow> run_state" where
  "started c m n =
     createWorkers (nat n)
       (CreateWorker (shootQueue c) ''SecretBinding Provider''
          (secretBindingProviderReconciler c) (workerCh c))
       (createWorkers (nat m)
          (CreateWorker (secretBindingQueue c) ''SecretBinding'' (reconciler c) (workerCh c))
          (emit (MainG, LogInfo) (emit (MainG, GoCounter) \<lparr>ctrl = c, trace = []\<rparr>)))"

text \<open>A controller as the constructor builds it, for informers 0 and 1.\<close>

definition builtController :: Controller where
  "builtController =
     \<lparr>reconciler = Some SecretBindingReconciler,
      secretBindingProviderReconciler = Some SecretBindingProviderReconciler,
      hasSyncedFuncs = [HasSynced 0, HasSynced 1],
      secretBindingQueue = Some (NewNamedRateLimitingQueue ''SecretBinding''),
      shootQueue = Some (NewNamedRateLimitingQueue ''Shoot''),
      workerCh = Some (Chan 0),
      numberOfRunningWorkers = 0\<rparr>"

definition quiet :: world where
  "quiet = \<lparr>ctxDone = False, sbLen = 0, shootLen = 0, signals = [], wgZero = True\<rparr>"

text \<open>
  One worker and a slow reconciler: the worker is counted, the context is cancelled while
  it still runs, and it is done one sleep later.
\<close>

definition slowReconcile :: env where
  "slowReconcile =
     \<lparr>cacheSync = True,
      ticks = [quiet\<lparr>signals := [1], wgZero := False\<rparr>,
               quiet\<lparr>ctxDone := True, wgZero := False\<rparr>,
               quiet\<lparr>ctxDone := True, signals := [- 1]\<rparr>]\<rparr>"

text \<open>
  One key is pending in the SecretBinding queue at the instant of the cancellation and one
  worker runs; one sleep later the key is processed and the worker is done, and nothing
  happens any more for \<open>k\<close> further instants.
\<close>

definition pendingKey :: "nat \<Rightarrow> env" where
  "pendingKey k =
     \<lparr>cacheSync = True,
      ticks = [quiet\<lparr>signals := [1], wgZero := False\<rparr>,
               quiet\<lparr>ctxDone := True, sbLen := 1, wgZero := False\<rparr>,
               quiet\<lparr>ctxDone := True, signals := [- 1]\<rparr>]
              @ replicate k (quiet\<lparr>ctxDone := True\<rparr>)\<rparr>"





text \<open>The goroutines that read, write and feed the counter in a run.\<close>

fun receivesSignal :: "action \<Rightarrow> bool" where
  "receivesSignal (RecvWorkerCh v) = True"
| "receivesSignal a = False"

definition counterReaders :: "event list \<Rightarrow> goroutine list" where
  "counterReaders tr = map fst (filter (\<lambda>ev. readsCounter (snd ev)) tr)"

definition counterWriters :: "event list \<Rightarrow> goroutine list" where
  "counterWriters tr = map fst (filter (\<lambda>ev. writesCounter (snd ev)) tr)"

definition receivers :: "event list \<Rightarrow> goroutine list" where
  "receivers tr = map fst (filter (\<lambda>ev. receivesSignal (snd ev)) tr)"

text \<open>
  The counter is owned: so far only the counting goroutine wrote it and received from the
  channel, and it holds its first value \<open>n0\<close> plus all that was received.
\<close>

definition owned :: "goint \<Rightarrow> run_state \<Rightarrow> bool" where
  "owned n0 s =
     (set (counterWriters (trace s)) \<subseteq> {CounterG} \<and> set (receivers (trace s)) \<subseteq> {CounterG}
      \<and> numberOfRunningWorkers (ctrl s) = n0 + sum_list (received (trace s)))"

text \<open>A garden client whose cache has informer 0 for SecretBindings and informer 1 for Shoots.\<close>

definition gardenCache :: gardenClient where
  "gardenCache =
     \<lparr>GetInformer = (\<lambda>k. case k of SecretBindingKind \<Rightarrow> Inr 0 | ShootKind \<Rightarrow> Inr (Suc 0))\<rparr>"

text \<open>A garden client whose cache has no informer for Shoots.\<close>

definition noShootInformer :: gardenClient where
  "noShootInformer =
     \<lparr>GetInformer = (\<lambda>k. case k of SecretBindingKind \<Rightarrow> Inr 0
                            | ShootKind \<Rightarrow> Inl (ClientError ''no informer''))\<rparr>"


section \<open>Run: what every phase keeps\<close>

lemma createWorkerCalls_append [simp]:
  "createWorkerCalls (xs @ ys) = createWorkerCalls xs @ createWorkerCalls ys"
  by (simp add: createWorkerCalls_def)

lemma createWorkerCalls_Nil [simp]: "createWorkerCalls [] = []"
  by (simp add: createWorkerCalls_def)

lemma createWorkerCalls_Cons [simp]:
  "createWorkerCalls (ev # tr) = (if isCreateWorker ev then ev # createWorkerCalls tr else createWorkerCalls tr)"
  by (simp add: createWorkerCalls_def)

lemma cw_emit [simp]:
  "createWorkerCalls (trace (emit ev s)) = createWorkerCalls (trace s) @ (if isCreateWorker ev then [ev] else [])"
  by (simp add: emit_def)

lemma cw_countWorkers [simp]:
  "createWorkerCalls (trace (countWorkers rs s)) = createWorkerCalls (trace s)"
  by (induction rs s rule: countWorkers.induct) (simp_all add: Let_def)

lemma cw_counterGoroutine [simp]:
  "createWorkerCalls (trace (counterGoroutine w s)) = createWorkerCalls (trace s)"
  by (simp add: counterGoroutine_def)

lemma cw_waitGroupWait [simp]:
  "createWorkerCalls (trace (snd (waitGroupWait none w ws s))) = createWorkerCalls (trace s)"
  by (induction none w ws s rule: waitGroupWait.induct) simp_all

lemma cw_shutdownLoop [simp]:
  "createWorkerCalls (trace (final (shutdownLoop q none w ws s))) = createWorkerCalls (trace s)"
  by (induction q none w ws s rule: shutdownLoop.induct) (simp_all add: Let_def split_beta)

lemma cw_shutDown [simp]:
  "createWorkerCalls (trace (final (shutDown none w ws s))) = createWorkerCalls (trace s)"
  by (simp add: shutDown_def Let_def split: option.splits)

lemma cw_awaitCtxDone [simp]:
  "createWorkerCalls (trace (final (awaitCtxDone none ws s))) = createWorkerCalls (trace s)"
  by (induction none ws s rule: awaitCtxDone.induct) (simp_all add: Let_def)

lemma cw_createWorkers [simp]:
  "createWorkerCalls (trace (createWorkers k (CreateWorker q n r ch) s)) =
     createWorkerCalls (trace s) @ replicate k (MainG, CreateWorker q n r ch)"
  by (induction k arbitrary: s) (simp_all add: replicate_append_same)

lemma ctrl_emit [simp]: "ctrl (emit ev s) = ctrl s"
  by (simp add: emit_def)

lemma trace_emit [simp]: "trace (emit ev s) = trace s @ [ev]"
  by (simp add: emit_def)

lemma mainReads_append [simp]: "mainReads (xs @ ys) = mainReads xs @ mainReads ys"
  by (induction xs rule: mainReads.induct) simp_all

lemma received_append [simp]: "received (xs @ ys) = received xs @ received ys"
  by (induction xs rule: received.induct) simp_all

lemma countWorkers_ctrl:
  "ctrl (countWorkers rs s) = (ctrl s)\<lparr>numberOfRunningWorkers := numberOfRunningWorkers (ctrl s) + sum_list rs\<rparr>"
  by (induction rs s rule: countWorkers.induct) (simp_all add: Let_def add.assoc)

lemma countWorkers_mainReads [simp]:
  "mainReads (trace (countWorkers rs s)) = mainReads (trace s)"
  by (induction rs s rule: countWorkers.induct) (simp_all add: Let_def)

lemma countWorkers_prefix: "\<exists>post. trace (countWorkers rs s) = trace s @ post"
  by (induction rs s rule: countWorkers.induct) (auto simp: Let_def)

lemma counterGoroutine_queues [simp]:
  "secretBindingQueue (ctrl (counterGoroutine w s)) = secretBindingQueue (ctrl s)"
  "shootQueue (ctrl (counterGoroutine w s)) = shootQueue (ctrl s)"
  "workerCh (ctrl (counterGoroutine w s)) = workerCh (ctrl s)"
  by (simp_all add: counterGoroutine_def countWorkers_ctrl)

lemma counterGoroutine_mainReads [simp]:
  "mainReads (trace (counterGoroutine w s)) = mainReads (trace s)"
  by (simp add: counterGoroutine_def)

lemma counterGoroutine_prefix: "\<exists>post. trace (counterGoroutine w s) = trace s @ post"
  using countWorkers_prefix by (simp add: counterGoroutine_def)

lemma waitGroupWait_queues [simp]:
  "secretBindingQueue (ctrl (snd (waitGroupWait none w ws s))) = secretBindingQueue (ctrl s)"
  "shootQueue (ctrl (snd (waitGroupWait none w ws s))) = shootQueue (ctrl s)"
  by (induction none w ws s rule: waitGroupWait.induct) simp_all

lemma waitGroupWait_mainReads [simp]:
  "mainReads (trace (snd (waitGroupWait none w ws s))) = mainReads (trace s)"
  by (induction none w ws s rule: waitGroupWait.induct) simp_all

lemma waitGroupWait_prefix: "\<exists>post. trace (snd (waitGroupWait none w ws s)) = trace s @ post"
proof (induction none w ws s rule: waitGroupWait.induct)
  case (1 none w s)
  then show ?case by simp
next
  case (2 none w w' ws s)
  obtain p where "trace (counterGoroutine w' s) = trace s @ p"
    using counterGoroutine_prefix by blast
  with 2 show ?case by auto
qed



lemma shutdownLoop_exit:
  "q = 0 \<Longrightarrow> numberOfRunningWorkers (ctrl s) = 0 \<Longrightarrow>
     shutdownLoop q none w ws s =
       \<lparr>outcome = fst (waitGroupWait none w ws (leave s)),
        final = snd (waitGroupWait none w ws (leave s)), lastPoll = Some w\<rparr>"
  by (cases ws) (simp_all add: leave_def split_beta Let_def del: waitGroupWait.simps)

lemma shutdownLoop_stop:
  "\<not> (q = 0 \<and> numberOfRunningWorkers (ctrl s) = 0) \<Longrightarrow>
     shutdownLoop q none w [] s = \<lparr>outcome = Polling, final = again q s, lastPoll = None\<rparr>"
  by (cases "q = 0") (simp_all add: again_def Let_def del: waitGroupWait.simps)

lemma shutdownLoop_step:
  "\<not> (q = 0 \<and> numberOfRunningWorkers (ctrl s) = 0) \<Longrightarrow>
     shutdownLoop q none w (w' # ws) s = shutdownLoop q none w' ws (counterGoroutine w' (again q s))"
  by (cases "q = 0") (simp_all add: again_def Let_def del: waitGroupWait.simps)


declare shutdownLoop.simps [simp del]

lemma leave_simps [simp]:
  "ctrl (leave s) = ctrl s"
  "trace (leave s) = trace s @ [(MainG, ReadCounter 0), (MainG, Break), (MainG, Wait)]"
  by (simp_all add: leave_def)

lemma again_ctrl [simp]: "ctrl (again q s) = ctrl s"
  by (simp add: again_def)

lemma again_prefix: "\<exists>post. trace (again q s) = trace s @ post"
  by (simp add: again_def)

lemma shutdownLoop_queues [simp]:
  "secretBindingQueue (ctrl (final (shutdownLoop q none w ws s))) = secretBindingQueue (ctrl s)"
  "shootQueue (ctrl (final (shutdownLoop q none w ws s))) = shootQueue (ctrl s)"
proof (induction ws arbitrary: w s)
  case Nil
  {
    case 1
    show ?case
      by (cases "q = 0 \<and> numberOfRunningWorkers (ctrl s) = 0")
         (simp_all add: shutdownLoop_exit shutdownLoop_stop)
  next
    case 2
    show ?case
      by (cases "q = 0 \<and> numberOfRunningWorkers (ctrl s) = 0")
         (simp_all add: shutdownLoop_exit shutdownLoop_stop)
  }
next
  case (Cons w' ws)
  {
    case 1
    show ?case
      by (cases "q = 0 \<and> numberOfRunningWorkers (ctrl s) = 0")
         (simp_all add: shutdownLoop_exit shutdownLoop_step Cons)
  next
    case 2
    show ?case
      by (cases "q = 0 \<and> numberOfRunningWorkers (ctrl s) = 0")
         (simp_all add: shutdownLoop_exit shutdownLoop_step Cons)
  }
qed


lemma shutdownLoop_prefix: "\<exists>post. trace (final (shutdownLoop q none w ws s)) = trace s @ post"
proof (induction ws arbitrary: w s)
  case Nil
  show ?case
  proof (cases "q = 0 \<and> numberOfRunningWorkers (ctrl s) = 0")
    case True
    then show ?thesis
      using waitGroupWait_prefix [of none w "[]" "leave s"] by (auto simp: shutdownLoop_exit)
  next
    case False
    then show ?thesis using again_prefix [of q s] by (simp add: shutdownLoop_stop)
  qed
next
  case (Cons w' ws)
  show ?case
  proof (cases "q = 0 \<and> numberOfRunningWorkers (ctrl s) = 0")
    case True
    then show ?thesis
      using waitGroupWait_prefix [of none w "w' # ws" "leave s"] by (auto simp: shutdownLoop_exit)
  next
    case False
    obtain p1 where p1: "trace (again q s) = trace s @ p1"
      using again_prefix by blast
    obtain p2 where p2: "trace (counterGoroutine w' (again q s)) = trace (again q s) @ p2"
      using counterGoroutine_prefix by blast
    obtain p3 where p3: "trace (final (shutdownLoop q none w' ws (counterGoroutine w' (again q s))))
        = trace (counterGoroutine w' (again q s)) @ p3"
      using Cons by blast
    from False p1 p2 p3 show ?thesis by (simp add: shutdownLoop_step)
  qed
qed

lemma again_mainReads: "mainReads (trace (again q s)) \<noteq> []"
  by (simp add: again_def)

lemma shutdownLoop_returned:
  "outcome (shutdownLoop q none w ws s) = Returned \<Longrightarrow>
     q = 0 \<and> (\<exists>w'\<in>set (w # ws). lastPoll (shutdownLoop q none w ws s) = Some w')
     \<and> mainReads (trace (final (shutdownLoop q none w ws s))) \<noteq> []
     \<and> last (mainReads (trace (final (shutdownLoop q none w ws s)))) = 0"
proof (induction ws arbitrary: w s)
  case Nil
  show ?case
  proof (cases "q = 0 \<and> numberOfRunningWorkers (ctrl s) = 0")
    case True
    then show ?thesis by (simp add: shutdownLoop_exit)
  next
    case False
    with Nil show ?thesis by (simp add: shutdownLoop_stop)
  qed
next
  case (Cons w' ws)
  show ?case
  proof (cases "q = 0 \<and> numberOfRunningWorkers (ctrl s) = 0")
    case True
    then show ?thesis by (simp add: shutdownLoop_exit)
  next
    case False
    with Cons.prems have "outcome (shutdownLoop q none w' ws (counterGoroutine w' (again q s))) = Returned"
      by (simp add: shutdownLoop_step)
    from Cons.IH [OF this] False show ?thesis
      by (auto simp: shutdownLoop_step)
  qed
qed

lemma shutdownLoop_pending:
  "0 < q \<Longrightarrow> outcome (shutdownLoop q none w ws s) = Polling"
  by (induction ws arbitrary: w s) (simp_all add: shutdownLoop_stop shutdownLoop_step)

lemma shutDown_returned:
  assumes "outcome (shutDown none w ws s) = Returned"
  shows "\<exists>q1 q2 w' post.
           secretBindingQueue (ctrl s) = Some q1 \<and> shootQueue (ctrl s) = Some q2
         \<and> secretBindingQueue (ctrl (final (shutDown none w ws s))) = Some (q1\<lparr>shuttingDown := True\<rparr>)
         \<and> shootQueue (ctrl (final (shutDown none w ws s))) = Some (q2\<lparr>shuttingDown := True\<rparr>)
         \<and> sbLen w + shootLen w = 0 \<and> w' \<in> set (w # ws)
         \<and> lastPoll (shutDown none w ws s) = Some w'
         \<and> mainReads (trace (final (shutDown none w ws s))) \<noteq> []
         \<and> last (mainReads (trace (final (shutDown none w ws s)))) = 0
         \<and> trace (final (shutDown none w ws s))
             = trace s @ [(MainG, ShutDown (qname q1)), (MainG, ShutDown (qname q2))] @ post"
proof -
  from assms obtain q1 where q1: "secretBindingQueue (ctrl s) = Some q1"
    by (cases "secretBindingQueue (ctrl s)") (simp_all add: shutDown_def)
  from assms q1 obtain q2 where q2: "shootQueue (ctrl s) = Some q2"
    by (cases "shootQueue (ctrl s)") (simp_all add: shutDown_def Let_def)
  define s3 where "s3 = emit (MainG, Len (qname q2) (shootLen w))
      (emit (MainG, Len (qname q1) (sbLen w))
        (emit (MainG, ShutDown (qname q2))
          (emit (MainG, ShutDown (qname q1))
             (s\<lparr>ctrl := (ctrl s)\<lparr>secretBindingQueue := Some (q1\<lparr>shuttingDown := True\<rparr>),
                                  shootQueue := Some (q2\<lparr>shuttingDown := True\<rparr>)\<rparr>\<rparr>))))"
  have eq: "shutDown none w ws s = shutdownLoop (sbLen w + shootLen w) none w ws s3"
    using q1 q2 by (simp add: shutDown_def Let_def s3_def emit_def)
  have tr: "trace s3 = trace s @ [(MainG, ShutDown (qname q1)), (MainG, ShutDown (qname q2)),
       (MainG, Len (qname q1) (sbLen w)), (MainG, Len (qname q2) (shootLen w))]"
    by (simp add: s3_def)
  have qs: "secretBindingQueue (ctrl s3) = Some (q1\<lparr>shuttingDown := True\<rparr>)"
           "shootQueue (ctrl s3) = Some (q2\<lparr>shuttingDown := True\<rparr>)"
    by (simp_all add: s3_def)
  from assms eq have ret: "outcome (shutdownLoop (sbLen w + shootLen w) none w ws s3) = Returned"
    by simp
  obtain p where p: "trace (final (shutdownLoop (sbLen w + shootLen w) none w ws s3)) = trace s3 @ p"
    using shutdownLoop_prefix by blast
  from shutdownLoop_returned [OF ret] obtain w' where
    z: "sbLen w + shootLen w = 0" and w': "w' \<in> set (w # ws)"
    and lp: "lastPoll (shutdownLoop (sbLen w + shootLen w) none w ws s3) = Some w'"
    and mr: "mainReads (trace (final (shutdownLoop (sbLen w + shootLen w) none w ws s3))) \<noteq> []"
            "last (mainReads (trace (final (shutdownLoop (sbLen w + shootLen w) none w ws s3)))) = 0"
    by (elim conjE bexE)
  show ?thesis
    apply (rule exI [of _ q1], rule exI [of _ q2], rule exI [of _ w'])
    apply (rule exI [of _ "[(MainG, Len (qname q1) (sbLen w)), (MainG, Len (qname q2) (shootLen w))] @ p"])
    using q1 q2 z w' lp mr p tr qs unfolding eq by simp
qed


lemma awaitCtxDone_cancelled:
  "outcome (awaitCtxDone none ws s) \<noteq> BlockedOnCtx \<Longrightarrow>
   \<exists>pre w post s' p. ws = pre @ w # post \<and> (\<forall>u\<in>set pre. \<not> ctxDone u) \<and> ctxDone w
      \<and> awaitCtxDone none ws s = shutDown none w post (emit (MainG, RecvCtxDone) s')
      \<and> secretBindingQueue (ctrl s') = secretBindingQueue (ctrl s)
      \<and> shootQueue (ctrl s') = shootQueue (ctrl s)
      \<and> trace s' = trace s @ p"
proof (induction ws arbitrary: s)
  case Nil
  then show ?case by simp
next
  case (Cons w ws)
  obtain p0 where p0: "trace (counterGoroutine w s) = trace s @ p0"
    using counterGoroutine_prefix by blast
  show ?case
  proof (cases "ctxDone w")
    case True
    show ?thesis
      apply (rule exI [of _ "[]"], rule exI [of _ w], rule exI [of _ ws])
      apply (rule exI [of _ "counterGoroutine w s"], rule exI [of _ p0])
      using True p0 by (simp add: Let_def)
  next
    case False
    with Cons.prems have "outcome (awaitCtxDone none ws (counterGoroutine w s)) \<noteq> BlockedOnCtx"
      by (simp add: Let_def)
    from Cons.IH [OF this] obtain pre w1 post s' p where
      h: "ws = pre @ w1 # post" "\<forall>u\<in>set pre. \<not> ctxDone u" "ctxDone w1"
         "awaitCtxDone none ws (counterGoroutine w s) = shutDown none w1 post (emit (MainG, RecvCtxDone) s')"
         "secretBindingQueue (ctrl s') = secretBindingQueue (ctrl (counterGoroutine w s))"
         "shootQueue (ctrl s') = shootQueue (ctrl (counterGoroutine w s))"
         "trace s' = trace (counterGoroutine w s) @ p"
      by blast
    show ?thesis
      apply (rule exI [of _ "w # pre"], rule exI [of _ w1], rule exI [of _ post])
      apply (rule exI [of _ s'], rule exI [of _ "p0 @ p"])
      using False h p0 by (simp add: Let_def)
  qed
qed


lemma createWorkers_ctrl [simp]: "ctrl (createWorkers k a s) = ctrl s"
  by (induction k arbitrary: s) simp_all

lemma createWorkers_trace: "trace (createWorkers k a s) = trace s @ replicate k (MainG, a)"
  by (induction k arbitrary: s) (simp_all add: replicate_append_same)

lemma Run_synced:
  "cacheSync e \<Longrightarrow> Run e c m n = awaitCtxDone (nat m + nat n = 0) (ticks e) (started c m n)"
  by (simp add: Run_def Let_def started_def)

lemma started_ctrl [simp]: "ctrl (started c m n) = c"
  by (simp add: started_def)

lemma waitGroupWait_released:
  "fst (waitGroupWait none w ws s) = Returned \<Longrightarrow> none \<or> (\<exists>u\<in>set (w # ws). wgZero u)"
  by (induction none w ws s rule: waitGroupWait.induct) (auto split: if_splits)

lemma shutdownLoop_released:
  "outcome (shutdownLoop q none w ws s) = Returned \<Longrightarrow> none \<or> (\<exists>u\<in>set (w # ws). wgZero u)"
proof (induction ws arbitrary: w s)
  case Nil
  show ?case
  proof (cases "q = 0 \<and> numberOfRunningWorkers (ctrl s) = 0")
    case True
    with Nil have "fst (waitGroupWait none w [] (leave s)) = Returned"
      by (simp add: shutdownLoop_exit)
    from waitGroupWait_released [OF this] show ?thesis .
  next
    case False
    with Nil show ?thesis by (simp add: shutdownLoop_stop)
  qed
next
  case (Cons w' ws)
  show ?case
  proof (cases "q = 0 \<and> numberOfRunningWorkers (ctrl s) = 0")
    case True
    with Cons.prems have "fst (waitGroupWait none w (w' # ws) (leave s)) = Returned"
      by (simp add: shutdownLoop_exit)
    from waitGroupWait_released [OF this] show ?thesis .
  next
    case False
    with Cons.prems have "outcome (shutdownLoop q none w' ws (counterGoroutine w' (again q s))) = Returned"
      by (simp add: shutdownLoop_step)
    from Cons.IH [OF this] show ?thesis by auto
  qed
qed

lemma shutDown_released:
  assumes "outcome (shutDown none w ws s) = Returned"
  shows "none \<or> (\<exists>u\<in>set (w # ws). wgZero u)"
proof -
  from assms obtain q1 where q1: "secretBindingQueue (ctrl s) = Some q1"
    by (cases "secretBindingQueue (ctrl s)") (simp_all add: shutDown_def)
  from assms q1 obtain q2 where q2: "shootQueue (ctrl s) = Some q2"
    by (cases "shootQueue (ctrl s)") (simp_all add: shutDown_def Let_def)
  from assms q1 q2 obtain s3 where
    "outcome (shutdownLoop (sbLen w + shootLen w) none w ws s3) = Returned"
    by (simp add: shutDown_def Let_def)
  from shutdownLoop_released [OF this] show ?thesis .
qed

lemma mainReads_reader: "mainReads tr \<noteq> [] \<Longrightarrow> MainG \<in> set (counterReaders tr)"
  by (induction tr rule: mainReads.induct) (auto simp: counterReaders_def)

lemma Run_calls:
  "createWorkerCalls (trace (final (Run e c m n))) =
     (if cacheSync e then
        replicate (nat m)
          (MainG, CreateWorker (secretBindingQueue c) ''SecretBinding'' (reconciler c) (workerCh c))
        @ replicate (nat n)
          (MainG, CreateWorker (shootQueue c) ''SecretBinding Provider''
                    (secretBindingProviderReconciler c) (workerCh c))
      else [])"
  by (simp add: Run_def Let_def)

lemma Run_returned:
  assumes "cacheSync e" and "outcome (Run e c m n) = Returned"
  shows "\<exists>q1 q2 pre w post w' tpre tpost.
           ticks e = pre @ w # post \<and> (\<forall>u\<in>set pre. \<not> ctxDone u) \<and> ctxDone w
         \<and> w' \<in> set (w # post) \<and> lastPoll (Run e c m n) = Some w'
         \<and> sbLen w + shootLen w = 0
         \<and> secretBindingQueue c = Some q1 \<and> shootQueue c = Some q2
         \<and> secretBindingQueue (ctrl (final (Run e c m n))) = Some (q1\<lparr>shuttingDown := True\<rparr>)
         \<and> shootQueue (ctrl (final (Run e c m n))) = Some (q2\<lparr>shuttingDown := True\<rparr>)
         \<and> trace (final (Run e c m n))
             = tpre @ [(MainG, RecvCtxDone), (MainG, ShutDown (qname q1)), (MainG, ShutDown (qname q2))] @ tpost
         \<and> mainReads (trace (final (Run e c m n))) \<noteq> []
         \<and> last (mainReads (trace (final (Run e c m n)))) = 0
         \<and> (nat m + nat n = 0 \<or> (\<exists>u\<in>set (w # post). wgZero u))"
proof -
  define s where "s = started c m n"
  have run: "Run e c m n = awaitCtxDone (nat m + nat n = 0) (ticks e) s" and s: "ctrl s = c"
    using Run_synced [OF assms(1)] by (simp_all add: s_def)
  let ?none = "nat m + nat n = 0"
  from assms(2) run have "outcome (awaitCtxDone ?none (ticks e) s) \<noteq> BlockedOnCtx"
    by simp
  from awaitCtxDone_cancelled [OF this] obtain pre w post s' p where
    h: "ticks e = pre @ w # post" "\<forall>u\<in>set pre. \<not> ctxDone u" "ctxDone w"
       "awaitCtxDone ?none (ticks e) s = shutDown ?none w post (emit (MainG, RecvCtxDone) s')"
       "secretBindingQueue (ctrl s') = secretBindingQueue (ctrl s)"
       "shootQueue (ctrl s') = shootQueue (ctrl s)"
       "trace s' = trace s @ p"
    by (elim exE conjE)
  let ?s = "emit (MainG, RecvCtxDone) s'"
  have eq: "Run e c m n = shutDown ?none w post ?s"
    using run h(4) by simp
  with assms(2) have ret: "outcome (shutDown ?none w post ?s) = Returned"
    by simp
  from shutDown_released [OF ret] have wg: "?none \<or> (\<exists>u\<in>set (w # post). wgZero u)" .
  from shutDown_returned [OF ret] obtain q1 q2 w' post' where
    k: "secretBindingQueue (ctrl ?s) = Some q1" "shootQueue (ctrl ?s) = Some q2"
       "secretBindingQueue (ctrl (final (shutDown ?none w post ?s))) = Some (q1\<lparr>shuttingDown := True\<rparr>)"
       "shootQueue (ctrl (final (shutDown ?none w post ?s))) = Some (q2\<lparr>shuttingDown := True\<rparr>)"
       "sbLen w + shootLen w = 0" "w' \<in> set (w # post)"
       "lastPoll (shutDown ?none w post ?s) = Some w'"
       "mainReads (trace (final (shutDown ?none w post ?s))) \<noteq> []"
       "last (mainReads (trace (final (shutDown ?none w post ?s)))) = 0"
       "trace (final (shutDown ?none w post ?s))
          = trace ?s @ [(MainG, ShutDown (qname q1)), (MainG, ShutDown (qname q2))] @ post'"
    by (elim exE conjE)
  show ?thesis
    apply (rule exI [of _ q1], rule exI [of _ q2], rule exI [of _ pre], rule exI [of _ w])
    apply (rule exI [of _ post], rule exI [of _ w'])
    apply (rule exI [of _ "trace s @ p"], rule exI [of _ post'])
    using k h s wg unfolding eq by simp
qed

lemma waitGroupWait_now:
  "none \<or> wgZero w \<Longrightarrow> waitGroupWait none w ws s = (Returned, s)"
  by (cases ws) auto

lemma shutdownLoop_spec_exit:
  "sbLen w + shootLen w = 0 \<Longrightarrow> numberOfRunningWorkers (ctrl s) = 0 \<Longrightarrow> none \<or> wgZero w \<Longrightarrow>
     outcome (shutdownLoop_spec none w ws s) = Returned"
  by (cases ws) (simp_all add: waitGroupWait_now split_beta del: waitGroupWait.simps)

lemma owned_emit:
  "owned n0 s \<Longrightarrow> \<not> writesCounter a \<Longrightarrow> \<not> receivesSignal a \<Longrightarrow> owned n0 (emit (MainG, a) s)"
  by (cases a) (simp_all add: owned_def counterWriters_def receivers_def)

lemma owned_countWorkers: "owned n0 s \<Longrightarrow> owned n0 (countWorkers rs s)"
proof (induction rs s rule: countWorkers.induct)
  case (1 s)
  then show ?case by simp
next
  case (2 res rs s)
  show ?case
    apply (simp add: Let_def)
    apply (rule 2(1) [OF refl])
    using 2(2) by (simp add: owned_def counterWriters_def receivers_def)
qed

lemma owned_counterGoroutine: "owned n0 s \<Longrightarrow> owned n0 (counterGoroutine w s)"
  by (simp add: counterGoroutine_def owned_countWorkers)

lemma owned_waitGroupWait: "owned n0 s \<Longrightarrow> owned n0 (snd (waitGroupWait none w ws s))"
  by (induction none w ws s rule: waitGroupWait.induct) (simp_all add: owned_counterGoroutine)

lemma owned_leave: "owned n0 s \<Longrightarrow> owned n0 (leave s)"
  by (simp add: leave_def owned_emit)

lemma owned_again: "owned n0 s \<Longrightarrow> owned n0 (again q s)"
  by (simp add: again_def owned_emit)

lemma owned_shutdownLoop: "owned n0 s \<Longrightarrow> owned n0 (final (shutdownLoop q none w ws s))"
proof (induction ws arbitrary: w s)
  case Nil
  then show ?case
    by (cases "q = 0 \<and> numberOfRunningWorkers (ctrl s) = 0")
       (simp_all add: shutdownLoop_exit shutdownLoop_stop owned_waitGroupWait owned_leave owned_again)
next
  case (Cons w' ws)
  then show ?case
    by (cases "q = 0 \<and> numberOfRunningWorkers (ctrl s) = 0")
       (simp_all add: shutdownLoop_exit shutdownLoop_step owned_waitGroupWait owned_leave
          owned_again owned_counterGoroutine)
qed

lemma owned_queues:
  "owned n0 s \<Longrightarrow> owned n0 (s\<lparr>ctrl := (ctrl s)\<lparr>secretBindingQueue := q\<rparr>\<rparr>)"
  "owned n0 s \<Longrightarrow> owned n0 (s\<lparr>ctrl := (ctrl s)\<lparr>shootQueue := q\<rparr>\<rparr>)"
  by (simp_all add: owned_def)

lemma owned_shutDown:
  assumes "owned n0 s"
  shows "owned n0 (final (shutDown none w ws s))"
proof (cases "secretBindingQueue (ctrl s)")
  case None
  with assms show ?thesis by (simp add: shutDown_def)
next
  case (Some q1)
  note q1 = this
  show ?thesis
  proof (cases "shootQueue (ctrl s)")
    case None
    with q1 assms show ?thesis
      by (simp add: shutDown_def Let_def owned_def counterWriters_def receivers_def)
  next
    case (Some q2)
    define s2 where "s2 = s\<lparr>ctrl := (ctrl s)\<lparr>secretBindingQueue := Some (q1\<lparr>shuttingDown := True\<rparr>),
                                  shootQueue := Some (q2\<lparr>shuttingDown := True\<rparr>)\<rparr>\<rparr>"
    have o2: "owned n0 s2"
      using assms by (simp add: s2_def owned_def)
    have "shutDown none w ws s = shutdownLoop (sbLen w + shootLen w) none w ws
        (emit (MainG, Len (qname q2) (shootLen w)) (emit (MainG, Len (qname q1) (sbLen w))
          (emit (MainG, ShutDown (qname q2)) (emit (MainG, ShutDown (qname q1)) s2))))"
      using q1 Some by (simp add: shutDown_def Let_def s2_def emit_def)
    then show ?thesis
      using o2 by (simp add: owned_shutdownLoop owned_emit)
  qed
qed

lemma owned_awaitCtxDone: "owned n0 s \<Longrightarrow> owned n0 (final (awaitCtxDone none ws s))"
  by (induction ws arbitrary: s)
     (simp_all add: Let_def owned_shutDown owned_emit owned_counterGoroutine)

lemma owned_createWorkers:
  "owned n0 s \<Longrightarrow> owned n0 (createWorkers k (CreateWorker q n r ch) s)"
  by (induction k arbitrary: s) (simp_all add: owned_emit)

lemma owned_Run: "owned (numberOfRunningWorkers c) (final (Run e c m n))"
proof -
  have "owned (numberOfRunningWorkers c) \<lparr>ctrl = c, trace = []\<rparr>"
    by (simp add: owned_def counterWriters_def receivers_def)
  then show ?thesis
    by (simp add: Run_def Let_def owned_awaitCtxDone owned_createWorkers owned_emit)
qed

section \<open>Run: the claims\<close>


text \<open>
  Claim C6. For worker counts \<open>m\<close> and \<open>n\<close>, after a successful cache sync \<^verbatim>\<open>Run\<close>
  calls \<^verbatim>\<open>CreateWorker\<close> exactly \<open>m\<close> times with the SecretBinding queue and the
  SecretBinding reconciler, then exactly \<open>n\<close> times with the Shoot queue and the
  SecretBinding-provider reconciler, and never else; either count is free of the other.
  (A negative count creates no worker.)
\<close>

theorem Run_creates_workers:
  "cacheSync e \<Longrightarrow>
     createWorkerCalls (trace (final (Run e c m n))) =
       replicate (nat m)
         (MainG, CreateWorker (secretBindingQueue c) ''SecretBinding'' (reconciler c) (workerCh c))
     @ replicate (nat n)
         (MainG, CreateWorker (shootQueue c) ''SecretBinding Provider''
                   (secretBindingProviderReconciler c) (workerCh c))"
  by (simp add: Run_def Let_def)

theorem Run_creates_workers_witness:
  "cacheSync slowReconcile
   \<and> createWorkerCalls (trace (final (Run slowReconcile builtController 2 1))) =
       [(MainG, CreateWorker (Some (NewNamedRateLimitingQueue ''SecretBinding'')) ''SecretBinding''
                  (Some SecretBindingReconciler) (Some (Chan 0))),
        (MainG, CreateWorker (Some (NewNamedRateLimitingQueue ''SecretBinding'')) ''SecretBinding''
                  (Some SecretBindingReconciler) (Some (Chan 0))),
        (MainG, CreateWorker (Some (NewNamedRateLimitingQueue ''Shoot'')) ''SecretBinding Provider''
                  (Some SecretBindingProviderReconciler) (Some (Chan 0)))]"
proof -
  have h: "cacheSync slowReconcile"
    by (simp add: slowReconcile_def)
  from Run_creates_workers [OF h, of builtController 2 1] h show ?thesis
    by (simp add: builtController_def numeral_2_eq_2)
qed

text \<open>
  Claim C10. If the initial cache synchronization fails, \<^verbatim>\<open>Run\<close> returns at once: it
  logs the error and does nothing else. No worker is created, nothing is received from or
  sent on the worker channel, \<^verbatim>\<open>ShutDown\<close> is called on neither queue, and the
  controller, with both queues, is as it was.
\<close>

theorem Run_sync_failed:
  "\<not> cacheSync e \<Longrightarrow>
     Run e c m n = \<lparr>outcome = Returned,
                    final = \<lparr>ctrl = c, trace = [(MainG, LogError)]\<rparr>,
                    lastPoll = None\<rparr>"
  by (simp add: Run_def emit_def)

theorem Run_sync_failed_witness:
  "\<not> cacheSync \<lparr>cacheSync = False, ticks = [quiet]\<rparr>
   \<and> Run \<lparr>cacheSync = False, ticks = [quiet]\<rparr> builtController 3 2 =
       \<lparr>outcome = Returned,
        final = \<lparr>ctrl = builtController, trace = [(MainG, LogError)]\<rparr>,
        lastPoll = None\<rparr>
   \<and> secretBindingQueue builtController = Some \<lparr>qname = ''SecretBinding'', shuttingDown = False\<rparr>
   \<and> shootQueue builtController = Some \<lparr>qname = ''Shoot'', shuttingDown = False\<rparr>"
proof -
  have h: "\<not> cacheSync \<lparr>cacheSync = False, ticks = [quiet]\<rparr>"
    by simp
  from Run_sync_failed [OF h, of builtController 3 2] h show ?thesis
    by (simp add: builtController_def NewNamedRateLimitingQueue_def)
qed

text \<open>
  Claim C2. In the shutdown wait loop the sum of all queue lengths is read again at every
  polling iteration. The code reads it once, on line 129, before the loop. With one key
  pending at the instant of the cancellation, \<^verbatim>\<open>Run\<close> is still polling however many
  instants follow, although the queue is empty and the counter is zero from the second
  instant on; the loop that re-reads the lengths returns there.
\<close>

theorem Run_stale_queueLengths:
  "outcome (Run (pendingKey k) builtController 1 0) = Polling
   \<and> outcome (shutdownLoop_spec False (quiet\<lparr>ctxDone := True, sbLen := 1, wgZero := False\<rparr>)
        (quiet\<lparr>ctxDone := True, signals := [- 1]\<rparr> # replicate k (quiet\<lparr>ctxDone := True\<rparr>))
        \<lparr>ctrl = builtController\<lparr>numberOfRunningWorkers := 1\<rparr>, trace = []\<rparr>) = Returned"
proof
  show "outcome (Run (pendingKey k) builtController 1 0) = Polling"
    by (simp add: Run_def pendingKey_def quiet_def Let_def shutDown_def shutdownLoop_pending
          builtController_def)
next
  show "outcome (shutdownLoop_spec False (quiet\<lparr>ctxDone := True, sbLen := 1, wgZero := False\<rparr>)
        (quiet\<lparr>ctxDone := True, signals := [- 1]\<rparr> # replicate k (quiet\<lparr>ctxDone := True\<rparr>))
        \<lparr>ctrl = builtController\<lparr>numberOfRunningWorkers := 1\<rparr>, trace = []\<rparr>) = Returned"
    by (simp add: quiet_def Let_def counterGoroutine_def builtController_def shutdownLoop_spec_exit
             del: shutdownLoop_spec.simps(1) )
qed




text \<open>
  Claim C4, as stated: the goroutine that consumes \<^verbatim>\<open>workerCh\<close> is the only reader and
  writer of the counter, and no other code reads it concurrently with that owner. The
  polling loop of \<^verbatim>\<open>Run\<close> runs in another goroutine and reads the counter, with no
  synchronisation, while the owner writes it.
\<close>

theorem Run_reads_counter:
  "MainG \<in> set (counterReaders (trace (final (Run slowReconcile builtController 1 0))))
   \<and> CounterG \<in> set (counterWriters (trace (final (Run slowReconcile builtController 1 0))))"
  by code_simp

text \<open>
  Claim C4, amended. The counter is written only by the one goroutine that \<^verbatim>\<open>Run\<close>
  starts to consume \<^verbatim>\<open>workerCh\<close>, and that goroutine is the only one to receive from
  the channel in \<^verbatim>\<open>Run\<close>; the counter holds its first value plus the sum of the values
  received, in the wrapping arithmetic of Go's \<^verbatim>\<open>int\<close>. Every worker is created with
  \<^verbatim>\<open>c.workerCh\<close> as its channel, by the caller of \<^verbatim>\<open>Run\<close> and by no one else. The
  goroutine that called \<^verbatim>\<open>Run\<close> never writes the counter, but it reads it: no run
  returns after a successful cache sync without having read it there.
\<close>

theorem Run_counter_owner:
  "set (counterWriters (trace (final (Run e c m n)))) \<subseteq> {CounterG}
   \<and> set (receivers (trace (final (Run e c m n)))) \<subseteq> {CounterG}
   \<and> numberOfRunningWorkers (ctrl (final (Run e c m n)))
        = numberOfRunningWorkers c + sum_list (received (trace (final (Run e c m n))))
   \<and> (\<forall>ev\<in>set (createWorkerCalls (trace (final (Run e c m n)))).
         \<exists>q nm r. ev = (MainG, CreateWorker q nm r (workerCh c)))
   \<and> (cacheSync e \<longrightarrow> outcome (Run e c m n) = Returned \<longrightarrow>
         MainG \<in> set (counterReaders (trace (final (Run e c m n)))))"
proof (intro conjI impI)
  show "set (counterWriters (trace (final (Run e c m n)))) \<subseteq> {CounterG}"
    using owned_Run [of c e m n] by (simp add: owned_def)
  show "set (receivers (trace (final (Run e c m n)))) \<subseteq> {CounterG}"
    using owned_Run [of c e m n] by (simp add: owned_def)
  show "numberOfRunningWorkers (ctrl (final (Run e c m n)))
        = numberOfRunningWorkers c + sum_list (received (trace (final (Run e c m n))))"
    using owned_Run [of c e m n] by (simp add: owned_def)
  show "\<forall>ev\<in>set (createWorkerCalls (trace (final (Run e c m n)))).
         \<exists>q nm r. ev = (MainG, CreateWorker q nm r (workerCh c))"
    by (auto simp: Run_calls)
next
  assume "cacheSync e" and "outcome (Run e c m n) = Returned"
  from Run_returned [OF this] have "mainReads (trace (final (Run e c m n))) \<noteq> []"
    by (elim exE conjE)
  then show "MainG \<in> set (counterReaders (trace (final (Run e c m n))))"
    by (rule mainReads_reader)
qed

theorem Run_counter_owner_witness:
  "counterWriters (trace (final (Run slowReconcile builtController 2 0))) = [CounterG, CounterG]
   \<and> receivers (trace (final (Run slowReconcile builtController 2 0))) = [CounterG, CounterG]
   \<and> received (trace (final (Run slowReconcile builtController 2 0))) = [1, - 1]
   \<and> numberOfRunningWorkers (ctrl (final (Run slowReconcile builtController 2 0))) = 0
   \<and> length (createWorkerCalls (trace (final (Run slowReconcile builtController 2 0)))) = 2
   \<and> cacheSync slowReconcile \<and> outcome (Run slowReconcile builtController 2 0) = Returned
   \<and> MainG \<in> set (counterReaders (trace (final (Run slowReconcile builtController 2 0))))"
proof -
  have a: "received (trace (final (Run slowReconcile builtController 2 0))) = [1, - 1]"
    by code_simp
  have b: "counterWriters (trace (final (Run slowReconcile builtController 2 0))) = [CounterG, CounterG]"
    by code_simp
  have d: "receivers (trace (final (Run slowReconcile builtController 2 0))) = [CounterG, CounterG]"
    by code_simp
  have f: "length (createWorkerCalls (trace (final (Run slowReconcile builtController 2 0)))) = 2"
    by code_simp
  have h1: "cacheSync slowReconcile"
    by (simp add: slowReconcile_def)
  have h2: "outcome (Run slowReconcile builtController 2 0) = Returned"
    by code_simp
  have z: "numberOfRunningWorkers builtController = 0"
    by (simp add: builtController_def)
  from Run_counter_owner [of slowReconcile builtController 2 0] a b d f h1 h2 z
  show ?thesis
    by simp
qed

section \<open>The constructor: the claims\<close>

text \<open>
  Claim C9. \<^verbatim>\<open>NewSecretBindingController\<close> returns a nil controller and a non-nil error
  if and only if obtaining the garden client or one of the two informers fails, and then
  it has registered nothing; on success it returns a controller whose two queues and whose
  worker channel are not nil and whose \<^verbatim>\<open>hasSyncedFuncs\<close> are exactly the
  \<^verbatim>\<open>HasSynced\<close> functions of the two informers, the SecretBinding informer's first.
\<close>

theorem NewSecretBindingController_result:
  "(isl (fst (NewSecretBindingController getClient st)) \<longleftrightarrow> obtainFails getClient)
   \<and> (isl (fst (NewSecretBindingController getClient st)) \<longrightarrow>
        snd (NewSecretBindingController getClient st) = st)
   \<and> (\<forall>c. fst (NewSecretBindingController getClient st) = Inr c \<longrightarrow>
        (\<exists>gc i1 i2. getClient = Inr gc \<and> GetInformer gc SecretBindingKind = Inr i1
           \<and> GetInformer gc ShootKind = Inr i2
           \<and> secretBindingQueue c \<noteq> None \<and> shootQueue c \<noteq> None \<and> workerCh c \<noteq> None
           \<and> hasSyncedFuncs c = [HasSynced i1, HasSynced i2]))"
  by (auto simp: NewSecretBindingController_def obtainFails_def Let_def split: sum.splits)

theorem NewSecretBindingController_result_witness:
  "obtainFails (Inr noShootInformer)
   \<and> isl (fst (NewSecretBindingController (Inr noShootInformer) (\<lambda>i. [])))
   \<and> \<not> obtainFails (Inr gardenCache)
   \<and> (\<exists>c. fst (NewSecretBindingController (Inr gardenCache) (\<lambda>i. [])) = Inr c
         \<and> hasSyncedFuncs c = [HasSynced 0, HasSynced (Suc 0)]
         \<and> secretBindingQueue c \<noteq> None \<and> shootQueue c \<noteq> None \<and> workerCh c \<noteq> None)"
proof -
  have f: "obtainFails (Inr noShootInformer)"
    by (simp add: obtainFails_def noShootInformer_def)
  have g: "\<not> obtainFails (Inr gardenCache)"
    by (simp add: obtainFails_def gardenCache_def)
  obtain c where c: "fst (NewSecretBindingController (Inr gardenCache) (\<lambda>i. [])) = Inr c"
    by (simp add: NewSecretBindingController_def gardenCache_def Let_def)
  have k: "GetInformer gardenCache SecretBindingKind = Inr 0"
          "GetInformer gardenCache ShootKind = Inr (Suc 0)"
    by (simp_all add: gardenCache_def)
  from NewSecretBindingController_result [of "Inr noShootInformer" "\<lambda>i. []"]
       NewSecretBindingController_result [of "Inr gardenCache" "\<lambda>i. []"] f g c k
  show ?thesis
    by auto
qed

text \<open>
  Claim C7. On success the constructor registers, on the SecretBinding informer, one
  handler set with an add, an update and a delete function, and then, on the Shoot
  informer, one handler set with an add function only (\<^verbatim>\<open>shootAdd\<close>) and nothing else.
  The handler \<^verbatim>\<open>shootAdd\<close> itself follows the specification: on a Shoot it enqueues the
  key of the SecretBinding the Shoot refers to, which is then pending unless the queue is
  shut down.
\<close>

theorem NewSecretBindingController_handlers:
  assumes "NewSecretBindingController (Inr gc) st = (Inr c, st')"
  shows "\<exists>i1 i2. GetInformer gc SecretBindingKind = Inr i1 \<and> GetInformer gc ShootKind = Inr i2
      \<and> st' = AddEventHandler i2 \<lparr>AddFunc = Some ShootAdd, UpdateFunc = None, DeleteFunc = None\<rparr>
                (AddEventHandler i1 \<lparr>AddFunc = Some SecretBindingAdd,
                                     UpdateFunc = Some SecretBindingUpdate,
                                     DeleteFunc = Some SecretBindingDelete\<rparr> st)
      \<and> (\<forall>ns n ref q. handleEvent ShootAdd (ShootObj ns n ref) q = wqAdd (objKey ns ref) q
            \<and> (\<not> shutDownCalled q \<longrightarrow>
                 objKey ns ref \<in> set (ready (handleEvent ShootAdd (ShootObj ns n ref) q))
                                 \<union> set (readded (handleEvent ShootAdd (ShootObj ns n ref) q))))"
  using assms
  by (auto simp: NewSecretBindingController_def Let_def wqAdd_def split: sum.splits)

theorem NewSecretBindingController_handlers_witness:
  "(\<exists>c st'. NewSecretBindingController (Inr gardenCache) (\<lambda>i. []) = (Inr c, st')
       \<and> st' 0 = [\<lparr>AddFunc = Some SecretBindingAdd, UpdateFunc = Some SecretBindingUpdate,
                    DeleteFunc = Some SecretBindingDelete\<rparr>]
       \<and> st' (Suc 0) = [\<lparr>AddFunc = Some ShootAdd, UpdateFunc = None, DeleteFunc = None\<rparr>]
       \<and> st' 2 = [])
   \<and> \<not> shutDownCalled emptyQueue
   \<and> ready (handleEvent ShootAdd (ShootObj ''garden'' ''shoot1'' ''binding1'') emptyQueue)
        = [''garden/binding1'']"
proof -
  obtain c st' where h: "NewSecretBindingController (Inr gardenCache) (\<lambda>i. []) = (Inr c, st')"
    by (simp add: NewSecretBindingController_def gardenCache_def Let_def)
  have k: "GetInformer gardenCache SecretBindingKind = Inr 0"
          "GetInformer gardenCache ShootKind = Inr (Suc 0)"
    by (simp_all add: gardenCache_def)
  have e: "\<not> shutDownCalled emptyQueue"
    by (simp add: emptyQueue_def)
  from NewSecretBindingController_handlers [OF h] k e h show ?thesis
    by (auto simp: AddEventHandler_def emptyQueue_def wqAdd_def objKey_def)
qed

section \<open>The queue discipline\<close>










end
